theory Spec2Isabelle
  imports Complex_Main
begin

text \<open>
  A maze game for the browser: a level is an image whose pixels are walls, paths, the
  start and the goal; the player walks through the decoded maze and sees only the cells
  around it and the cells it has visited; a level that has been completed is recorded,
  with the visited cells, in the browser's storage.

  The script exists in three revisions. The model follows the latest one, the revision
  with the camera that follows the player in mazes larger than the view. The decoder,
  \<^verbatim>\<open>Maze\<close>, \<^verbatim>\<open>Player\<close> and \<^verbatim>\<open>GameState\<close> read the same in all three, except that the
  two earlier revisions leave the image URL out of the decoder's error message.

  Coordinates, sizes in cells and level numbers are JavaScript numbers that hold integers;
  they are of type \<open>int\<close>, or \<open>nat\<close> where they count pixels of an image. Methods that
  change an object return the changed object.
\<close>

section \<open>Template strings and string-keyed sets\<close>

text \<open>
  The program keys its sets of cells by the template string \<^verbatim>\<open>`${x},${y}`\<close> and its
  colour table by \<^verbatim>\<open>`${r},${g},${b}`\<close>. A number that is an integer is interpolated
  as its decimal numeral, with a leading minus sign when it is negative.
\<close>

definition digit_char :: "nat \<Rightarrow> char" where
  "digit_char d = char_of (48 + d)"

fun nat_str :: "nat \<Rightarrow> string" where
  "nat_str n = (if n < 10 then [digit_char n] else nat_str (n div 10) @ [digit_char (n mod 10)])"

declare nat_str.simps [simp del]

definition num_str :: "int \<Rightarrow> string" where
  "num_str i = (if i < 0 then CHR ''-'' # nat_str (nat (- i)) else nat_str (nat i))"

definition is_digit :: "char \<Rightarrow> bool" where
  "is_digit c = (48 \<le> (of_char c :: nat) \<and> (of_char c :: nat) \<le> 57)"

text \<open>A cell is the object \<^verbatim>\<open>{ x: x, y: y }\<close>; its key is \<^verbatim>\<open>`${x},${y}`\<close>.\<close>

type_synonym cell = "int \<times> int"

definition cellKey :: "int \<Rightarrow> int \<Rightarrow> string" where
  "cellKey x y = num_str x @ '','' @ num_str y"

text \<open>
  A JavaScript \<^verbatim>\<open>Set\<close> of strings keeps its members in insertion order and holds
  each of them once: a list to which \<^verbatim>\<open>add\<close> appends a key that is not there yet.
  \<^verbatim>\<open>new Set(array)\<close> adds the elements of the array in order, \<^verbatim>\<open>Array.from(set)\<close>
  lists the members in insertion order.
\<close>

type_synonym js_set = "string list"

definition Set_add :: "string \<Rightarrow> js_set \<Rightarrow> js_set" where
  "Set_add k s = (if k \<in> set s then s else s @ [k])"

definition Set_has :: "js_set \<Rightarrow> string \<Rightarrow> bool" where
  "Set_has s k = (k \<in> set s)"

definition new_Set :: "string list \<Rightarrow> js_set" where
  "new_Set xs = fold Set_add xs []"

definition Array_from :: "js_set \<Rightarrow> string list" where
  "Array_from s = s"

section \<open>The maze decoder: parseMazeFromImage\<close>

text \<open>
  The pixel buffer that \<^verbatim>\<open>getImageData\<close> returns: width, height and the samples
  R, G, B, A of each pixel, row after row. Reading a typed array beyond its end gives
  \<^verbatim>\<open>undefined\<close>, which the template string prints as that word.
\<close>

record image =
  img_width :: nat
  img_height :: nat
  img_data :: "nat list"

definition data_at :: "nat list \<Rightarrow> nat \<Rightarrow> nat option" where
  "data_at d i = (if i < length d then Some (d ! i) else None)"

definition sample_str :: "nat option \<Rightarrow> string" where
  "sample_str v = (case v of None \<Rightarrow> ''undefined'' | Some n \<Rightarrow> nat_str n)"

definition colorKey :: "nat option \<Rightarrow> nat option \<Rightarrow> nat option \<Rightarrow> string" where
  "colorKey r g b = sample_str r @ '','' @ sample_str g @ '','' @ sample_str b"

definition COLOR_MAP_WALL :: string where
  "COLOR_MAP_WALL = ''0,0,0''"

definition COLOR_MAP_PATH :: string where
  "COLOR_MAP_PATH = ''255,255,255''"

definition COLOR_MAP_START :: string where
  "COLOR_MAP_START = ''0,0,255''"

definition COLOR_MAP_GOAL :: string where
  "COLOR_MAP_GOAL = ''255,0,0''"

text \<open>The object that the decoder resolves with.\<close>

record mazeData =
  md_width :: int
  md_height :: int
  md_start :: cell
  md_goal :: cell
  md_walls :: "cell list"

text \<open>The three variables of the scan: \<^verbatim>\<open>walls\<close>, \<^verbatim>\<open>start\<close> and \<^verbatim>\<open>goal\<close>
  (\<^verbatim>\<open>null\<close> is \<open>None\<close>).\<close>

record scan =
  scan_walls :: "cell list"
  scan_start :: "cell option"
  scan_goal :: "cell option"

text \<open>The body of the inner loop, for the pixel in column \<open>x\<close> of row \<open>y\<close>.\<close>

definition scanPixel :: "image \<Rightarrow> nat \<Rightarrow> nat \<Rightarrow> scan \<Rightarrow> scan" where
  "scanPixel img y x s =
     (let i = (y * img_width img + x) * 4;
          r = data_at (img_data img) i;
          g = data_at (img_data img) (i + 1);
          b = data_at (img_data img) (i + 2);
          colorKey = colorKey r g b
      in if colorKey = COLOR_MAP_WALL then s\<lparr>scan_walls := scan_walls s @ [(int x, int y)]\<rparr>
         else if colorKey = COLOR_MAP_START then s\<lparr>scan_start := Some (int x, int y)\<rparr>
         else if colorKey = COLOR_MAP_GOAL then s\<lparr>scan_goal := Some (int x, int y)\<rparr>
         else s)"

text \<open>The two nested loops: rows from the top, and in each row the columns from the left.\<close>

definition scanRow :: "image \<Rightarrow> nat \<Rightarrow> scan \<Rightarrow> scan" where
  "scanRow img y s = fold (scanPixel img y) [0..<img_width img] s"

definition scanImage :: "image \<Rightarrow> scan" where
  "scanImage img =
     fold (scanRow img) [0..<img_height img]
       \<lparr>scan_walls = [], scan_start = None, scan_goal = None\<rparr>"

text \<open>
  The two rejections of the promise. \<open>LandmarkNotFound url\<close> is the error thrown after the
  scan; its message is one fixed sentence around the image URL: the start (blue: 0,0,255)
  or the goal (red: 255,0,0) of maze image \<open>url\<close> was not found. \<open>ImageLoadFailed url\<close> is
  the error of the \<^verbatim>\<open>onerror\<close> handler: maze image \<open>url\<close> could not be read.
\<close>

datatype error = LandmarkNotFound string | ImageLoadFailed string

text \<open>The \<^verbatim>\<open>onload\<close> handler, from the pixel buffer on.\<close>

definition parseMazeFromImage_onload :: "string \<Rightarrow> image \<Rightarrow> error + mazeData" where
  "parseMazeFromImage_onload imageUrl img =
     (let s = scanImage img
      in case scan_start s of
           None \<Rightarrow> Inl (LandmarkNotFound imageUrl)
         | Some start \<Rightarrow>
            (case scan_goal s of
               None \<Rightarrow> Inl (LandmarkNotFound imageUrl)
             | Some goal \<Rightarrow>
                 Inr \<lparr>md_width = int (img_width img), md_height = int (img_height img),
                      md_start = start, md_goal = goal, md_walls = scan_walls s\<rparr>))"

text \<open>
  Loading the image is the host's work: \<open>images url\<close> is the bitmap found at \<open>url\<close>, or
  \<open>None\<close> when the file is missing or unreadable and \<^verbatim>\<open>onerror\<close> fires.
\<close>

definition parseMazeFromImage :: "(string \<Rightarrow> image option) \<Rightarrow> string \<Rightarrow> error + mazeData" where
  "parseMazeFromImage images imageUrl =
     (case images imageUrl of
        None \<Rightarrow> Inl (ImageLoadFailed imageUrl)
      | Some img \<Rightarrow> parseMazeFromImage_onload imageUrl img)"

definition getMazeConfig :: "int \<Rightarrow> string" where
  "getMazeConfig level = ''maps/'' @ num_str level @ ''.png''"

section \<open>Maze and Player\<close>

text \<open>
  The constructor of \<^verbatim>\<open>Maze\<close> copies the descriptor and adds the key of every wall to a
  new set; the descriptor's \<^verbatim>\<open>walls\<close> is always an array here.
\<close>

record maze =
  maze_width :: int
  maze_height :: int
  maze_start :: cell
  maze_goal :: cell
  maze_walls :: js_set

definition new_Maze :: "mazeData \<Rightarrow> maze" where
  "new_Maze data =
     \<lparr>maze_width = md_width data, maze_height = md_height data,
      maze_start = md_start data, maze_goal = md_goal data,
      maze_walls = fold (\<lambda>wall walls. Set_add (cellKey (fst wall) (snd wall)) walls) (md_walls data) []\<rparr>"

definition isWall :: "maze \<Rightarrow> int \<Rightarrow> int \<Rightarrow> bool" where
  "isWall m x y = Set_has (maze_walls m) (cellKey x y)"

definition isValidMove :: "maze \<Rightarrow> int \<Rightarrow> int \<Rightarrow> bool" where
  "isValidMove m x y = (x \<ge> 0 \<and> x < maze_width m \<and> y \<ge> 0 \<and> y < maze_height m \<and> \<not> isWall m x y)"

record player =
  player_x :: int
  player_y :: int
  visitedCells :: js_set

definition markVisited :: "player \<Rightarrow> player" where
  "markVisited p = p\<lparr>visitedCells := Set_add (cellKey (player_x p) (player_y p)) (visitedCells p)\<rparr>"

definition hasVisited :: "player \<Rightarrow> int \<Rightarrow> int \<Rightarrow> bool" where
  "hasVisited p x y = Set_has (visitedCells p) (cellKey x y)"

definition new_Player :: "int \<Rightarrow> int \<Rightarrow> player" where
  "new_Player startX startY = markVisited \<lparr>player_x = startX, player_y = startY, visitedCells = []\<rparr>"

text \<open>\<^verbatim>\<open>move\<close> returns the player as the call leaves it, and the boolean it returns.\<close>

definition move :: "int \<Rightarrow> int \<Rightarrow> maze \<Rightarrow> player \<Rightarrow> player \<times> bool" where
  "move dx dy m p =
     (let newX = player_x p + dx;
          newY = player_y p + dy
      in if \<not> isWall m newX newY
         then (markVisited (p\<lparr>player_x := newX, player_y := newY\<rparr>), True)
         else (p, False))"

definition isAtGoal :: "player \<Rightarrow> maze \<Rightarrow> bool" where
  "isAtGoal p m = (player_x p = fst (maze_goal m) \<and> player_y p = snd (maze_goal m))"

section \<open>The decoder, as the specification words it\<close>

text \<open>
  For comparison with the scan: the samples R, G, B of the pixel in column \<open>x\<close> of row
  \<open>y\<close>, the three reserved colours as tuples, the coordinates of an image in row-major
  order, and the pixels of one colour, listed in that order.
\<close>

type_synonym rgb = "nat option \<times> nat option \<times> nat option"

definition pixel :: "image \<Rightarrow> nat \<Rightarrow> nat \<Rightarrow> rgb" where
  "pixel img x y =
     (let i = (y * img_width img + x) * 4
      in (data_at (img_data img) i, data_at (img_data img) (i + 1), data_at (img_data img) (i + 2)))"

definition rgb_wall :: rgb where
  "rgb_wall = (Some 0, Some 0, Some 0)"

definition rgb_start :: rgb where
  "rgb_start = (Some 0, Some 0, Some 255)"

definition rgb_goal :: rgb where
  "rgb_goal = (Some 255, Some 0, Some 0)"

definition rowMajor :: "nat \<Rightarrow> nat \<Rightarrow> (nat \<times> nat) list" where
  "rowMajor w h = concat (map (\<lambda>y. map (\<lambda>x. (x, y)) [0..<w]) [0..<h])"

definition pixelsOfColour :: "image \<Rightarrow> rgb \<Rightarrow> cell list" where
  "pixelsOfColour img c =
     map (\<lambda>(x, y). (int x, int y))
       (filter (\<lambda>(x, y). pixel img x y = c) (rowMajor (img_width img) (img_height img)))"

text \<open>A sequence of \<^verbatim>\<open>move\<close> calls on the one player object, each with its \<open>(dx, dy)\<close>.\<close>

definition runMoves :: "maze \<Rightarrow> (int \<times> int) list \<Rightarrow> player \<Rightarrow> player" where
  "runMoves m ms p = fold (\<lambda>(dx, dy) q. fst (move dx dy m q)) ms p"

section \<open>GameState and the progress store\<close>

text \<open>
  One entry of the progress object: \<^verbatim>\<open>{ completed: boolean, path: ['x,y', ...] }\<close>. An
  entry read from storage may lack the \<^verbatim>\<open>path\<close> property.
\<close>

record levelProgress =
  completed :: bool
  path :: "string list option"

type_synonym progressMap = "int \<rightharpoonup> levelProgress"

text \<open>
  The item \<^verbatim>\<open>mazeGameProgress\<close> of \<^verbatim>\<open>localStorage\<close>: absent, or the progress object that
  was saved. The item is JSON text written by \<^verbatim>\<open>JSON.stringify\<close> and read by
  \<^verbatim>\<open>JSON.parse\<close>; both are the host's, and the text stands here for the object it
  encodes, an object of booleans and arrays of strings.
\<close>

type_synonym localStorage = "progressMap option"

datatype screen = Title | LevelSelect | Game | Clear

record game_state =
  currentLevel :: int
  maxLevel :: int
  progress :: progressMap
  currentScreen :: screen

definition loadProgress :: "localStorage \<Rightarrow> progressMap" where
  "loadProgress ls = (case ls of None \<Rightarrow> Map.empty | Some saved \<Rightarrow> saved)"

definition saveProgress :: "game_state \<Rightarrow> localStorage \<Rightarrow> localStorage" where
  "saveProgress gs ls = Some (progress gs)"

definition new_GameState :: "localStorage \<Rightarrow> game_state" where
  "new_GameState ls =
     \<lparr>currentLevel = 1, maxLevel = 0, progress = loadProgress ls, currentScreen = Title\<rparr>"

definition completeLevel :: "int \<Rightarrow> js_set \<Rightarrow> game_state \<times> localStorage \<Rightarrow> game_state \<times> localStorage" where
  "completeLevel level pathSet st =
     (let pathArray = Array_from pathSet;
          gs = (fst st)\<lparr>progress := (progress (fst st))(level \<mapsto> \<lparr>completed = True, path = Some pathArray\<rparr>)\<rparr>
      in (gs, saveProgress gs (snd st)))"

definition getCompletedPath :: "game_state \<Rightarrow> int \<Rightarrow> js_set" where
  "getCompletedPath gs level =
     (case progress gs level of
        None \<Rightarrow> new_Set []
      | Some entry \<Rightarrow> (case path entry of None \<Rightarrow> new_Set [] | Some p \<Rightarrow> new_Set p))"

section \<open>The main view: renderMaze\<close>

text \<open>
  The display constants. Pixel quantities are JavaScript numbers; they are rationals
  here, and no statement below depends on their rounding.
\<close>

definition CONTAINER_SIZE :: rat where
  "CONTAINER_SIZE = 500"

definition MIN_CELL_SIZE :: rat where
  "MIN_CELL_SIZE = 20"

definition MAX_VISIBLE_CELLS :: int where
  "MAX_VISIBLE_CELLS = 25"

text \<open>
  The first half of \<^verbatim>\<open>renderMaze\<close>: the range of cells to go through and the drawing
  offset. The canvas is \<open>CONTAINER_SIZE\<close> wide and high, as \<^verbatim>\<open>startLevel\<close> sets it.
\<close>

record viewport =
  vp_startX :: int
  vp_startY :: int
  vp_endX :: int
  vp_endY :: int
  vp_offsetX :: rat
  vp_offsetY :: rat

definition renderMaze_viewport :: "maze \<Rightarrow> player \<Rightarrow> rat \<Rightarrow> viewport" where
  "renderMaze_viewport m p cellSize =
     (let W_MAZE = maze_width m;
          H_MAZE = maze_height m;
          W_VIEW = MAX_VISIBLE_CELLS;
          H_VIEW = MAX_VISIBLE_CELLS;
          HALF_VIEW = W_VIEW div 2
      in if W_MAZE \<le> W_VIEW \<and> H_MAZE \<le> H_VIEW
         then \<lparr>vp_startX = 0, vp_startY = 0, vp_endX = W_MAZE - 1, vp_endY = H_MAZE - 1,
               vp_offsetX = (CONTAINER_SIZE - of_int W_MAZE * cellSize) / 2,
               vp_offsetY = (CONTAINER_SIZE - of_int H_MAZE * cellSize) / 2\<rparr>
         else
           (let viewPortStartX = min (W_MAZE - W_VIEW) (max 0 (player_x p - HALF_VIEW));
                viewPortStartY = min (H_MAZE - H_VIEW) (max 0 (player_y p - HALF_VIEW))
            in \<lparr>vp_startX = viewPortStartX, vp_startY = viewPortStartY,
                 vp_endX = viewPortStartX + W_VIEW - 1, vp_endY = viewPortStartY + H_VIEW - 1,
                 vp_offsetX = - of_int viewPortStartX * cellSize,
                 vp_offsetY = - of_int viewPortStartY * cellSize\<rparr>))"

text \<open>
  What the drawing loop paints for one cell: a wall square, or a path square that is
  bright inside the view range and dim outside it, with the goal marker on the goal.
\<close>

datatype fill_style = WallFill | PathBright | PathDim

record drawnCell =
  dc_x :: int
  dc_y :: int
  dc_drawX :: rat
  dc_drawY :: rat
  dc_fill :: fill_style
  dc_goal :: bool

definition viewRange :: int where
  "viewRange = 1"

text \<open>The body of the drawing loop for the cell \<open>(x, y)\<close>: the squares it paints.\<close>

definition renderMaze_cell :: "maze \<Rightarrow> player \<Rightarrow> rat \<Rightarrow> viewport \<Rightarrow> int \<Rightarrow> int \<Rightarrow> drawnCell list" where
  "renderMaze_cell m p cellSize vp y x =
     (let drawX = of_int x * cellSize + vp_offsetX vp;
          drawY = of_int y * cellSize + vp_offsetY vp
      in if x < 0 \<or> x \<ge> maze_width m \<or> y < 0 \<or> y \<ge> maze_height m then []
         else
           (let isInView = (\<bar>x - player_x p\<bar> \<le> viewRange \<and> \<bar>y - player_y p\<bar> \<le> viewRange);
                hasVisited = hasVisited p x y
            in if isInView \<or> hasVisited
               then (if isWall m x y
                     then [\<lparr>dc_x = x, dc_y = y, dc_drawX = drawX, dc_drawY = drawY,
                            dc_fill = WallFill, dc_goal = False\<rparr>]
                     else [\<lparr>dc_x = x, dc_y = y, dc_drawX = drawX, dc_drawY = drawY,
                            dc_fill = (if isInView then PathBright else PathDim),
                            dc_goal = (x = fst (maze_goal m) \<and> y = snd (maze_goal m))\<rparr>])
               else []))"

text \<open>
  The drawing loop: rows \<open>startY\<close> to \<open>endY\<close>, and in each row the columns \<open>startX\<close> to
  \<open>endX\<close>. The result lists the squares in the order they are painted; the player's disc,
  painted last, is not part of it.
\<close>

definition renderMaze :: "maze \<Rightarrow> player \<Rightarrow> rat \<Rightarrow> drawnCell list" where
  "renderMaze m p cellSize =
     (let vp = renderMaze_viewport m p cellSize
      in concat (map (\<lambda>y. concat (map (\<lambda>x. renderMaze_cell m p cellSize vp y x)
                                     [vp_startX vp..vp_endX vp]))
                     [vp_startY vp..vp_endY vp]))"

definition isDrawn :: "maze \<Rightarrow> player \<Rightarrow> rat \<Rightarrow> int \<Rightarrow> int \<Rightarrow> bool" where
  "isDrawn m p cellSize x y = ((x, y) \<in> set (map (\<lambda>c. (dc_x c, dc_y c)) (renderMaze m p cellSize)))"

section \<open>MazeGame: starting a level\<close>

text \<open>
  The messages of \<^verbatim>\<open>alert\<close>: the level is not implemented yet; loading level \<open>n\<close>
  failed with the given error; no map file was found.
\<close>

datatype alert = AlertNotImplemented | AlertLoadFailed int error | AlertNoMaps

text \<open>
  The fields of the game object that the level logic reads and writes; \<^verbatim>\<open>null\<close> is
  \<open>None\<close>. The canvases and their contexts are handles into the page and are left out, as
  is the page itself; \<open>alerts\<close> lists the messages shown so far.
\<close>

record mazeGame =
  gameState :: game_state
  game_maze :: "maze option"
  game_player :: "player option"
  cellSize :: rat
  parsedMazes :: "int \<rightharpoonup> mazeData"
  alerts :: "alert list"

definition showScreen :: "screen \<Rightarrow> mazeGame \<Rightarrow> mazeGame" where
  "showScreen screenName g = g\<lparr>gameState := (gameState g)\<lparr>currentScreen := screenName\<rparr>\<rparr>"

text \<open>
  \<^verbatim>\<open>showLevelSelect\<close> rebuilds the level grid after switching the screen; the grid is
  part of the page, and the previews it requests load after the call has returned.
\<close>

definition showLevelSelect :: "mazeGame \<Rightarrow> mazeGame" where
  "showLevelSelect g =
     (if maxLevel (gameState g) = 0 then g\<lparr>alerts := alerts g @ [AlertNoMaps]\<rparr>
      else showScreen LevelSelect g)"

text \<open>
  \<^verbatim>\<open>startLevel\<close>, from the call to the moment its promise settles. The \<^verbatim>\<open>try\<close> block
  either runs to its end or is left at the rejected \<^verbatim>\<open>await\<close>, the only statement of
  the block that the model lets fail; \<open>Inl\<close> of the inner result is the caught error.
\<close>

definition startLevel :: "(string \<Rightarrow> image option) \<Rightarrow> int \<Rightarrow> mazeGame \<Rightarrow> mazeGame" where
  "startLevel images level g =
     (let config = getMazeConfig level
      in if level > maxLevel (gameState g) then g\<lparr>alerts := alerts g @ [AlertNotImplemented]\<rparr>
         else
           (let g1 = g\<lparr>gameState := (gameState g)\<lparr>currentLevel := level\<rparr>\<rparr>;
                loaded =
                  (case parsedMazes g1 level of
                     Some mazeData \<Rightarrow> Inr (mazeData, g1)
                   | None \<Rightarrow>
                      (case parseMazeFromImage images config of
                         Inl error \<Rightarrow> Inl error
                       | Inr mazeData \<Rightarrow>
                           Inr (mazeData, g1\<lparr>parsedMazes := (parsedMazes g1)(level \<mapsto> mazeData)\<rparr>)))
            in case loaded of
                 Inr (mazeData, g2) \<Rightarrow>
                   (let m = new_Maze mazeData;
                        p = new_Player (fst (maze_start m)) (snd (maze_start m));
                        fixedVisibleCellSize = CONTAINER_SIZE / of_int MAX_VISIBLE_CELLS;
                        maxFitCellSize = min (CONTAINER_SIZE / of_int (maze_width m))
                                             (CONTAINER_SIZE / of_int (maze_height m));
                        newCellSize = (if maze_width m \<le> MAX_VISIBLE_CELLS \<and> maze_height m \<le> MAX_VISIBLE_CELLS
                                then max MIN_CELL_SIZE maxFitCellSize
                                else max MIN_CELL_SIZE fixedVisibleCellSize)
                    in showScreen Game
                         (g2\<lparr>game_maze := Some m, game_player := Some p, cellSize := newCellSize\<rparr>))
               | Inl error \<Rightarrow>
                   showLevelSelect (g1\<lparr>alerts := alerts g1 @ [AlertLoadFailed level error]\<rparr>)))"

section \<open>Scenarios\<close>

text \<open>
  The 5 by 5 image of the specification's scenarios: a border of wall pixels, the start
  at (1,1), the goal at (3,3) and no wall inside.
\<close>

definition black_px :: "nat list" where
  "black_px = [0, 0, 0, 255]"

definition white_px :: "nat list" where
  "white_px = [255, 255, 255, 255]"

definition blue_px :: "nat list" where
  "blue_px = [0, 0, 255, 255]"

definition red_px :: "nat list" where
  "red_px = [255, 0, 0, 255]"

definition scenario_image :: image where
  "scenario_image =
     \<lparr>img_width = 5, img_height = 5,
      img_data = concat
        [black_px, black_px, black_px, black_px, black_px,
         black_px, blue_px, white_px, white_px, black_px,
         black_px, white_px, white_px, white_px, black_px,
         black_px, white_px, white_px, red_px, black_px,
         black_px, black_px, black_px, black_px, black_px]\<rparr>"

definition scenario_data :: mazeData where
  "scenario_data =
     \<lparr>md_width = 5, md_height = 5, md_start = (1, 1), md_goal = (3, 3),
      md_walls = [(0, 0), (1, 0), (2, 0), (3, 0), (4, 0),
                  (0, 1), (4, 1), (0, 2), (4, 2), (0, 3), (4, 3),
                  (0, 4), (1, 4), (2, 4), (3, 4), (4, 4)]\<rparr>"

definition scenario_maze :: maze where
  "scenario_maze = new_Maze scenario_data"

text \<open>A 2 by 1 image with no wall pixel at all: the start at (0,0), the goal at (1,0).\<close>

definition open_image :: image where
  "open_image = \<lparr>img_width = 2, img_height = 1, img_data = concat [blue_px, red_px]\<rparr>"

definition open_data :: mazeData where
  "open_data = \<lparr>md_width = 2, md_height = 1, md_start = (0, 0), md_goal = (1, 0), md_walls = []\<rparr>"

definition open_maze :: maze where
  "open_maze = new_Maze open_data"

definition scenario_images :: "string \<Rightarrow> image option" where
  "scenario_images url = (if url = ''maps/1.png'' then Some scenario_image else None)"

text \<open>
  A 3 by 2 image with two start pixels, two goal pixels, one wall pixel and one grey
  pixel: blue, black, red in the first row and red, blue, grey in the second.
\<close>

definition grey_px :: "nat list" where
  "grey_px = [128, 128, 128, 255]"

definition twin_image :: image where
  "twin_image =
     \<lparr>img_width = 3, img_height = 2,
      img_data = concat [blue_px, black_px, red_px,
                         red_px, blue_px, grey_px]\<rparr>"

text \<open>Two images of one pixel: a red one, without a start, and a blue one, without a goal.\<close>

definition red_only_image :: image where
  "red_only_image = \<lparr>img_width = 1, img_height = 1, img_data = red_px\<rparr>"

definition blue_only_image :: image where
  "blue_only_image = \<lparr>img_width = 1, img_height = 1, img_data = blue_px\<rparr>"

text \<open>The visited set of the specification's completion scenario.\<close>

definition scenario_visited :: js_set where
  "scenario_visited = [''1,1'', ''2,1'', ''2,2'', ''3,3'']"

text \<open>
  A maze of one column and 27 rows: the start on top, the goal at the bottom, no wall.
\<close>

definition tower_image :: image where
  "tower_image =
     \<lparr>img_width = 1, img_height = 27,
      img_data = concat (blue_px # replicate 25 white_px @ [red_px])\<rparr>"

definition tower_data :: mazeData where
  "tower_data = \<lparr>md_width = 1, md_height = 27, md_start = (0, 0), md_goal = (0, 26), md_walls = []\<rparr>"

definition tower_maze :: maze where
  "tower_maze = new_Maze tower_data"

text \<open>A maze of 30 by 30 cells without walls.\<close>

definition wide_maze :: maze where
  "wide_maze = \<lparr>maze_width = 30, maze_height = 30, maze_start = (1, 1), maze_goal = (28, 28),
                 maze_walls = []\<rparr>"

text \<open>
  A game in which level 1, the scenario maze, has just been completed, with two levels
  known and only the first one in the cache; and a host on which the image of level 2 has
  no start pixel.
\<close>

definition cleared_game :: mazeGame where
  "cleared_game =
     \<lparr>gameState =
        \<lparr>currentLevel = 1, maxLevel = 2,
         progress = [1 \<mapsto> \<lparr>completed = True,
                              path = Some [''1,1'', ''2,1'', ''3,1'', ''3,2'', ''3,3'']\<rparr>],
         currentScreen = Clear\<rparr>,
      game_maze = Some scenario_maze,
      game_player = Some \<lparr>player_x = 3, player_y = 3,
                             visitedCells = [''1,1'', ''2,1'', ''3,1'', ''3,2'', ''3,3'']\<rparr>,
      cellSize = 100,
      parsedMazes = [1 \<mapsto> scenario_data],
      alerts = []\<rparr>"

definition broken_images :: "string \<Rightarrow> image option" where
  "broken_images url =
     (if url = ''maps/1.png'' then Some scenario_image
      else if url = ''maps/2.png'' then Some red_only_image
      else None)"

section \<open>Decimal numerals and keys are injective\<close>

lemma digit_char_index: "d < 10 \<Longrightarrow> (of_char (digit_char d) :: nat) = 48 + d"
  by (simp add: digit_char_def)

lemma digit_char_inj: "d < 10 \<Longrightarrow> e < 10 \<Longrightarrow> digit_char d = digit_char e \<Longrightarrow> d = e"
proof -
  assume a: "d < 10" "e < 10" and b: "digit_char d = digit_char e"
  from b have "(of_char (digit_char d) :: nat) = of_char (digit_char e)" by (rule arg_cong)
  then show ?thesis
    by (simp only: digit_char_index [OF a(1)] digit_char_index [OF a(2)] add_left_cancel)
qed

lemma is_digit_digit_char: "d < 10 \<Longrightarrow> is_digit (digit_char d)"
  by (simp add: is_digit_def digit_char_index)

lemma nat_str_digits: "c \<in> set (nat_str n) \<Longrightarrow> is_digit c"
proof (induction n rule: nat_str.induct)
  case (1 n)
  show ?case
  proof (cases "n < 10")
    case True
    with 1(2) show ?thesis by (simp add: nat_str.simps [of n] is_digit_digit_char)
  next
    case False
    have "is_digit (digit_char (n mod 10))" by (rule is_digit_digit_char) simp
    with False 1 show ?thesis by (auto simp: nat_str.simps [of n])
  qed
qed

lemma nat_str_nonempty: "nat_str n \<noteq> []"
  by (subst nat_str.simps) simp

lemma nat_str_inj: "nat_str m = nat_str n \<Longrightarrow> m = n"
proof (induction m arbitrary: n rule: nat_str.induct)
  case (1 m)
  show ?case
  proof (cases "m < 10")
    case ms: True
    show ?thesis
    proof (cases "n < 10")
      case True
      with ms 1(2) have "digit_char m = digit_char n" by (simp add: nat_str.simps)
      with ms True show ?thesis by (rule digit_char_inj)
    next
      case False
      with ms 1(2) have "[digit_char m] = nat_str (n div 10) @ [digit_char (n mod 10)]"
        by (simp add: nat_str.simps [of m] nat_str.simps [of n])
      then have "nat_str (n div 10) = []" by simp
      then show ?thesis using nat_str_nonempty by blast
    qed
  next
    case mb: False
    show ?thesis
    proof (cases "n < 10")
      case True
      with mb 1(2) have "nat_str (m div 10) @ [digit_char (m mod 10)] = [digit_char n]"
        by (simp add: nat_str.simps [of m] nat_str.simps [of n])
      then have "nat_str (m div 10) = []" by simp
      then show ?thesis using nat_str_nonempty by blast
    next
      case False
      with mb 1(2) have "nat_str (m div 10) @ [digit_char (m mod 10)]
          = nat_str (n div 10) @ [digit_char (n mod 10)]"
        by (simp add: nat_str.simps [of m] nat_str.simps [of n])
      then have a: "nat_str (m div 10) = nat_str (n div 10)"
        and b: "digit_char (m mod 10) = digit_char (n mod 10)"
        by simp_all
      from 1(1) [OF mb a] have c: "m div 10 = n div 10" .
      have "m mod 10 = n mod 10" using b by (intro digit_char_inj) simp_all
      with c show ?thesis by (metis div_mult_mod_eq)
    qed
  qed
qed

lemma minus_not_digit: "\<not> is_digit CHR ''-''"
  by (simp add: is_digit_def)

lemma comma_not_digit: "\<not> is_digit CHR '',''"
  by (simp add: is_digit_def)

lemma u_not_digit: "\<not> is_digit CHR ''u''"
  by (simp add: is_digit_def)

lemma nat_str_hd_digit: "nat_str n = c # cs \<Longrightarrow> is_digit c"
  using nat_str_digits [of c n] by simp

lemma nat_str_no_comma: "CHR '','' \<notin> set (nat_str n)"
  using nat_str_digits comma_not_digit by blast

lemma num_str_inj: "num_str i = num_str j \<Longrightarrow> i = j"
proof -
  assume e: "num_str i = num_str j"
  have neg: "CHR ''-'' # nat_str a \<noteq> nat_str b" for a b
    using nat_str_hd_digit [of b "CHR ''-''" "nat_str a"] minus_not_digit by auto
  show ?thesis
  proof (cases "i < 0")
    case True
    show ?thesis
    proof (cases "j < 0")
      case j: True
      with True e have "nat_str (nat (- i)) = nat_str (nat (- j))" by (simp add: num_str_def)
      then have "nat (- i) = nat (- j)" by (rule nat_str_inj)
      with True j show ?thesis by simp
    next
      case False
      with True e neg [of "nat (- i)" "nat j"] show ?thesis by (simp add: num_str_def)
    qed
  next
    case False
    show ?thesis
    proof (cases "j < 0")
      case True
      with False e neg [of "nat (- j)" "nat i"] show ?thesis by (simp add: num_str_def)
    next
      case j: False
      with False e have "nat_str (nat i) = nat_str (nat j)" by (simp add: num_str_def)
      then have "nat i = nat j" by (rule nat_str_inj)
      with False j show ?thesis by simp
    qed
  qed
qed

lemma num_str_no_comma: "CHR '','' \<notin> set (num_str i)"
  using nat_str_digits comma_not_digit by (auto simp: num_str_def)

lemma split_at_sep:
  "c \<notin> set a \<Longrightarrow> c \<notin> set a' \<Longrightarrow> a @ c # b = a' @ c # b' \<Longrightarrow> a = a' \<and> b = b'"
proof (induction a arbitrary: a')
  case Nil
  then show ?case by (cases a') auto
next
  case (Cons h t)
  then show ?case by (cases a') auto
qed

lemma cellKey_inj: "cellKey x y = cellKey x' y' \<longleftrightarrow> x = x' \<and> y = y'"
proof
  assume "cellKey x y = cellKey x' y'"
  then have "num_str x @ CHR '','' # num_str y = num_str x' @ CHR '','' # num_str y'"
    by (simp add: cellKey_def)
  then have "num_str x = num_str x' \<and> num_str y = num_str y'"
    by (rule split_at_sep [OF num_str_no_comma num_str_no_comma])
  then show "x = x' \<and> y = y'" by (simp add: num_str_inj)
next
  assume "x = x' \<and> y = y'"
  then show "cellKey x y = cellKey x' y'" by simp
qed

section \<open>Sets of keys\<close>

lemma set_Set_add: "set (Set_add k s) = insert k (set s)"
  by (auto simp: Set_add_def)

lemma distinct_Set_add: "distinct s \<Longrightarrow> distinct (Set_add k s)"
  by (simp add: Set_add_def)

lemma set_fold_Set_add: "set (fold (\<lambda>a s. Set_add (f a) s) xs acc) = set acc \<union> f ` set xs"
  by (induction xs arbitrary: acc) (auto simp: set_Set_add)

lemma set_new_Set: "set (new_Set xs) = set xs"
  using set_fold_Set_add [of "\<lambda>a. a" xs "[]"] by (simp add: new_Set_def)

lemma isWall_new_Maze: "isWall (new_Maze data) x y \<longleftrightarrow> (x, y) \<in> set (md_walls data)"
proof -
  have "isWall (new_Maze data) x y \<longleftrightarrow> cellKey x y \<in> (\<lambda>w. cellKey (fst w) (snd w)) ` set (md_walls data)"
    by (simp add: isWall_def new_Maze_def Set_has_def set_fold_Set_add)
  also have "\<dots> \<longleftrightarrow> (x, y) \<in> set (md_walls data)"
    by (force simp: cellKey_inj image_iff)
  finally show ?thesis .
qed

section \<open>Moves\<close>

lemma move_rejected: "isWall m (player_x p + dx) (player_y p + dy) \<Longrightarrow> move dx dy m p = (p, False)"
  by (simp add: move_def)

lemma move_rejected_funpow:
  "isWall m (player_x p + dx) (player_y p + dy) \<Longrightarrow> ((\<lambda>q. fst (move dx dy m q)) ^^ n) p = p"
  by (induction n) (simp_all add: move_rejected)

lemma move_committed:
  "\<not> isWall m (player_x p + dx) (player_y p + dy) \<Longrightarrow>
   move dx dy m p =
     (p\<lparr>player_x := player_x p + dx, player_y := player_y p + dy,
        visitedCells := Set_add (cellKey (player_x p + dx) (player_y p + dy)) (visitedCells p)\<rparr>, True)"
  by (simp add: move_def markVisited_def Let_def)

text \<open>
  C3. A move whose candidate cell \<open>(x + dx, y + dy)\<close> is not a wall commits: it returns
  true, the position becomes the candidate and the candidate joins the visited set, which
  keeps all its former members. A move whose candidate is a wall returns false and leaves
  the player as it was; repeated any number of times it still leaves the player, position
  and visited set, as it was, and is rejected again.
\<close>

theorem move_commits_or_rejects:
  "(\<not> isWall m (player_x p + dx) (player_y p + dy) \<longrightarrow>
       snd (move dx dy m p) = True
     \<and> player_x (fst (move dx dy m p)) = player_x p + dx
     \<and> player_y (fst (move dx dy m p)) = player_y p + dy
     \<and> set (visitedCells (fst (move dx dy m p)))
         = insert (cellKey (player_x p + dx) (player_y p + dy)) (set (visitedCells p))
     \<and> hasVisited (fst (move dx dy m p)) (player_x p + dx) (player_y p + dy))
   \<and> (isWall m (player_x p + dx) (player_y p + dy) \<longrightarrow>
       move dx dy m p = (p, False)
     \<and> ((\<lambda>q. fst (move dx dy m q)) ^^ n) p = p
     \<and> length (visitedCells (((\<lambda>q. fst (move dx dy m q)) ^^ n) p)) = length (visitedCells p)
     \<and> snd (move dx dy m (((\<lambda>q. fst (move dx dy m q)) ^^ n) p)) = False)"
proof (intro conjI impI)
  assume free: "\<not> isWall m (player_x p + dx) (player_y p + dy)"
  note c = move_committed [OF free]
  show "snd (move dx dy m p) = True" by (simp add: c)
  show "player_x (fst (move dx dy m p)) = player_x p + dx" by (simp add: c)
  show "player_y (fst (move dx dy m p)) = player_y p + dy" by (simp add: c)
  show "set (visitedCells (fst (move dx dy m p)))
      = insert (cellKey (player_x p + dx) (player_y p + dy)) (set (visitedCells p))"
    by (simp add: c set_Set_add)
  show "hasVisited (fst (move dx dy m p)) (player_x p + dx) (player_y p + dy)"
    by (simp add: c hasVisited_def Set_has_def set_Set_add)
next
  assume wall: "isWall m (player_x p + dx) (player_y p + dy)"
  note r = move_rejected [OF wall] and i = move_rejected_funpow [OF wall, of n]
  show "move dx dy m p = (p, False)" by (rule r)
  show "((\<lambda>q. fst (move dx dy m q)) ^^ n) p = p" by (rule i)
  show "length (visitedCells (((\<lambda>q. fst (move dx dy m q)) ^^ n) p)) = length (visitedCells p)"
    by (simp only: i)
  show "snd (move dx dy m (((\<lambda>q. fst (move dx dy m q)) ^^ n) p)) = False"
    by (simp only: i r snd_conv)
qed

theorem move_commits_or_rejects_witness:
  "\<not> isWall scenario_maze 2 1
   \<and> move 1 0 scenario_maze (new_Player 1 1)
       = (\<lparr>player_x = 2, player_y = 1, visitedCells = [''1,1'', ''2,1'']\<rparr>, True)
   \<and> isWall scenario_maze 0 1
   \<and> move (- 1) 0 scenario_maze (new_Player 1 1) = (new_Player 1 1, False)
   \<and> ((\<lambda>q. fst (move (- 1) 0 scenario_maze q)) ^^ 3) (new_Player 1 1) = new_Player 1 1"
  using move_commits_or_rejects [of scenario_maze "new_Player 1 1" 1 0 3]
    move_commits_or_rejects [of scenario_maze "new_Player 1 1" "- 1" 0 3]
  by code_simp

text \<open>
  C9. A coordinate pair outside the grid whose key is not in the wall set is not a wall
  for \<open>isWall\<close> (while \<open>isValidMove\<close> refuses it); so a move whose candidate is such a pair
  returns true and commits the position outside the grid, because \<open>move\<close> asks \<open>isWall\<close>
  only.
\<close>

theorem move_out_of_bounds_commits:
  assumes "\<not> (0 \<le> x \<and> x < maze_width m \<and> 0 \<le> y \<and> y < maze_height m)"
    and "cellKey x y \<notin> set (maze_walls m)"
    and "player_x p + dx = x" and "player_y p + dy = y"
  shows "\<not> isWall m x y \<and> \<not> isValidMove m x y
       \<and> snd (move dx dy m p) = True
       \<and> player_x (fst (move dx dy m p)) = x \<and> player_y (fst (move dx dy m p)) = y
       \<and> hasVisited (fst (move dx dy m p)) x y"
proof -
  from assms(2) have free: "\<not> isWall m x y" by (simp add: isWall_def Set_has_def)
  with assms(3,4) have "\<not> isWall m (player_x p + dx) (player_y p + dy)" by simp
  from move_committed [OF this] assms(3,4)
  have c: "move dx dy m p = (p\<lparr>player_x := x, player_y := y,
        visitedCells := Set_add (cellKey x y) (visitedCells p)\<rparr>, True)" by simp
  from assms(1) have "\<not> isValidMove m x y" by (auto simp: isValidMove_def)
  with free show ?thesis by (simp add: c hasVisited_def Set_has_def set_Set_add)
qed

theorem move_out_of_bounds_commits_witness:
  "\<not> (0 \<le> (- 1 :: int) \<and> (- 1 :: int) < maze_width open_maze \<and> 0 \<le> (0 :: int) \<and> 0 < maze_height open_maze)
   \<and> cellKey (- 1) 0 \<notin> set (maze_walls open_maze)
   \<and> move (- 1) 0 open_maze (new_Player 0 0)
       = (\<lparr>player_x = - 1, player_y = 0, visitedCells = [''0,0'', ''-1,0'']\<rparr>, True)
   \<and> \<not> isValidMove open_maze (- 1) 0"
proof -
  have a: "\<not> (0 \<le> (- 1 :: int) \<and> (- 1 :: int) < maze_width open_maze \<and> 0 \<le> (0 :: int) \<and> 0 < maze_height open_maze)"
    by simp
  have b: "cellKey (- 1) 0 \<notin> set (maze_walls open_maze)" by code_simp
  have c: "player_x (new_Player 0 0) + (- 1) = - 1" by code_simp
  have d: "player_y (new_Player 0 0) + 0 = 0" by code_simp
  have e: "move (- 1) 0 open_maze (new_Player 0 0)
       = (\<lparr>player_x = - 1, player_y = 0, visitedCells = [''0,0'', ''-1,0'']\<rparr>, True)"
    by code_simp
  from move_out_of_bounds_commits [OF a b c d] a b e show ?thesis by simp
qed

section \<open>What the scan computes\<close>

lemma sample_str_no_comma: "CHR '','' \<notin> set (sample_str v)"
  by (cases v) (simp_all add: sample_str_def nat_str_no_comma)

lemma undefined_not_nat_str: "''undefined'' \<noteq> nat_str n"
  using nat_str_hd_digit [of n "CHR ''u''" "''ndefined''"] u_not_digit by auto

lemma sample_str_inj: "sample_str v = sample_str w \<Longrightarrow> v = w"
  using undefined_not_nat_str undefined_not_nat_str [symmetric]
  by (cases v; cases w) (auto simp: sample_str_def dest: nat_str_inj)

lemma colorKey_inj: "colorKey r g b = colorKey r' g' b' \<longleftrightarrow> r = r' \<and> g = g' \<and> b = b'"
proof
  assume "colorKey r g b = colorKey r' g' b'"
  then have e: "sample_str r @ CHR '','' # (sample_str g @ CHR '','' # sample_str b)
      = sample_str r' @ CHR '','' # (sample_str g' @ CHR '','' # sample_str b')"
    by (simp add: colorKey_def)
  from split_at_sep [OF sample_str_no_comma sample_str_no_comma e]
  have r: "sample_str r = sample_str r'"
    and t: "sample_str g @ CHR '','' # sample_str b = sample_str g' @ CHR '','' # sample_str b'"
    by simp_all
  from split_at_sep [OF sample_str_no_comma sample_str_no_comma t]
  have "sample_str g = sample_str g'" and "sample_str b = sample_str b'" by simp_all
  with r show "r = r' \<and> g = g' \<and> b = b'" by (simp add: sample_str_inj)
next
  assume "r = r' \<and> g = g' \<and> b = b'"
  then show "colorKey r g b = colorKey r' g' b'" by simp
qed

lemma COLOR_MAP_WALL_key: "COLOR_MAP_WALL = colorKey (Some 0) (Some 0) (Some 0)"
  by code_simp

lemma COLOR_MAP_START_key: "COLOR_MAP_START = colorKey (Some 0) (Some 0) (Some 255)"
  by code_simp

lemma COLOR_MAP_GOAL_key: "COLOR_MAP_GOAL = colorKey (Some 255) (Some 0) (Some 0)"
  by code_simp

lemma scanPixel_pixel:
  "scanPixel img y x s =
     (if pixel img x y = rgb_wall then s\<lparr>scan_walls := scan_walls s @ [(int x, int y)]\<rparr>
      else if pixel img x y = rgb_start then s\<lparr>scan_start := Some (int x, int y)\<rparr>
      else if pixel img x y = rgb_goal then s\<lparr>scan_goal := Some (int x, int y)\<rparr>
      else s)"
  by (simp add: scanPixel_def pixel_def Let_def rgb_wall_def rgb_start_def rgb_goal_def
      COLOR_MAP_WALL_key COLOR_MAP_START_key COLOR_MAP_GOAL_key colorKey_inj)

lemma scanImage_rowMajor:
  "scanImage img = fold (\<lambda>(x, y). scanPixel img y x) (rowMajor (img_width img) (img_height img))
      \<lparr>scan_walls = [], scan_start = None, scan_goal = None\<rparr>"
proof -
  have "fold (\<lambda>(x, y). scanPixel img y x) (map (\<lambda>x. (x, y)) xs) = fold (scanPixel img y) xs" for y xs
    by (simp add: fold_map comp_def)
  then have "fold (\<lambda>(x, y). scanPixel img y x) (concat (map (\<lambda>y. map (\<lambda>x. (x, y)) [0..<w]) ys)) s
      = fold (\<lambda>y. fold (scanPixel img y) [0..<w]) ys s" for w ys s
    by (induction ys arbitrary: s) simp_all
  moreover have "scanRow img = (\<lambda>y. fold (scanPixel img y) [0..<img_width img])"
    by (simp add: scanRow_def fun_eq_iff)
  ultimately show ?thesis
    by (simp add: scanImage_def rowMajor_def)
qed


lemma fold_scanPixel:
  "fold (\<lambda>(x, y). scanPixel img y x) cs s =
     \<lparr>scan_walls = scan_walls s @ map (\<lambda>(x, y). (int x, int y)) (filter (\<lambda>(x, y). pixel img x y = rgb_wall) cs),
      scan_start = (case filter (\<lambda>(x, y). pixel img x y = rgb_start) cs of
                      [] \<Rightarrow> scan_start s | c # cs' \<Rightarrow> Some (case last (c # cs') of (x, y) \<Rightarrow> (int x, int y))),
      scan_goal = (case filter (\<lambda>(x, y). pixel img x y = rgb_goal) cs of
                      [] \<Rightarrow> scan_goal s | c # cs' \<Rightarrow> Some (case last (c # cs') of (x, y) \<Rightarrow> (int x, int y)))\<rparr>"
proof (induction cs arbitrary: s)
  case Nil
  show ?case by simp
next
  case (Cons c cs)
  obtain x y where c: "c = (x, y)" by (cases c)
  have ne: "rgb_wall \<noteq> rgb_start" "rgb_wall \<noteq> rgb_goal" "rgb_start \<noteq> rgb_goal"
    by (simp_all add: rgb_wall_def rgb_start_def rgb_goal_def)
  have step: "fold (\<lambda>(x, y). scanPixel img y x) (c # cs) s
      = fold (\<lambda>(x, y). scanPixel img y x) cs (scanPixel img y x s)"
    by (simp add: c)
  consider (wall) "pixel img x y = rgb_wall" | (start) "pixel img x y = rgb_start"
    | (goal) "pixel img x y = rgb_goal"
    | (path) "pixel img x y \<noteq> rgb_wall" "pixel img x y \<noteq> rgb_start" "pixel img x y \<noteq> rgb_goal"
    by blast
  then show ?case
  proof cases
    case wall
    then have "scanPixel img y x s = s\<lparr>scan_walls := scan_walls s @ [(int x, int y)]\<rparr>"
      by (simp add: scanPixel_pixel)
    with wall ne show ?thesis
      unfolding step Cons.IH by (simp add: c split: list.splits)
  next
    case start
    then have "scanPixel img y x s = s\<lparr>scan_start := Some (int x, int y)\<rparr>"
      using ne by (simp add: scanPixel_pixel)
    with start ne show ?thesis
      unfolding step Cons.IH by (simp add: c split: list.splits)
  next
    case goal
    then have "scanPixel img y x s = s\<lparr>scan_goal := Some (int x, int y)\<rparr>"
      using ne by (simp add: scanPixel_pixel)
    with goal ne show ?thesis
      unfolding step Cons.IH by (simp add: c split: list.splits)
  next
    case path
    then have "scanPixel img y x s = s"
      by (simp add: scanPixel_pixel)
    with path show ?thesis
      unfolding step Cons.IH by (simp add: c split: list.splits)
  qed
qed


lemma onload_char:
  "parseMazeFromImage_onload url img =
     (if pixelsOfColour img rgb_start = [] \<or> pixelsOfColour img rgb_goal = []
      then Inl (LandmarkNotFound url)
      else Inr \<lparr>md_width = int (img_width img), md_height = int (img_height img),
                md_start = last (pixelsOfColour img rgb_start),
                md_goal = last (pixelsOfColour img rgb_goal),
                md_walls = pixelsOfColour img rgb_wall\<rparr>)"
proof -
  define cs where "cs = rowMajor (img_width img) (img_height img)"
  define ss where "ss = filter (\<lambda>(x, y). pixel img x y = rgb_start) cs"
  define gs where "gs = filter (\<lambda>(x, y). pixel img x y = rgb_goal) cs"
  have s: "scan_start (scanImage img)
      = (if ss = [] then None else Some (last (map (\<lambda>(x, y). (int x, int y)) ss)))"
    by (simp add: scanImage_rowMajor fold_scanPixel cs_def ss_def last_map split: list.splits)
  have g: "scan_goal (scanImage img)
      = (if gs = [] then None else Some (last (map (\<lambda>(x, y). (int x, int y)) gs)))"
    by (simp add: scanImage_rowMajor fold_scanPixel cs_def gs_def last_map split: list.splits)
  have w: "scan_walls (scanImage img) = pixelsOfColour img rgb_wall"
    by (simp add: scanImage_rowMajor fold_scanPixel pixelsOfColour_def)
  have ps: "pixelsOfColour img rgb_start = map (\<lambda>(x, y). (int x, int y)) ss"
    and pg: "pixelsOfColour img rgb_goal = map (\<lambda>(x, y). (int x, int y)) gs"
    by (simp_all add: pixelsOfColour_def ss_def gs_def cs_def)
  show ?thesis
    by (simp add: parseMazeFromImage_onload_def Let_def s g w ps pg)
qed

lemma pixelsOfColour_iff:
  "(a, b) \<in> set (pixelsOfColour img c) \<longleftrightarrow>
     (\<exists>x y. a = int x \<and> b = int y \<and> x < img_width img \<and> y < img_height img \<and> pixel img x y = c)"
proof -
  have r: "(x, y) \<in> set (rowMajor w h) \<longleftrightarrow> x < w \<and> y < h" for x y w h
    by (auto simp: rowMajor_def image_iff)
  show ?thesis
    by (auto simp: pixelsOfColour_def r image_iff)
qed

lemma pixelsOfColour_disjoint:
  "c \<noteq> c' \<Longrightarrow> p \<in> set (pixelsOfColour img c) \<Longrightarrow> p \<notin> set (pixelsOfColour img c')"
  by (cases p) (auto simp: pixelsOfColour_iff)

lemma onload_landmarks:
  assumes "parseMazeFromImage_onload url img = Inr d"
  shows "md_start d \<in> set (pixelsOfColour img rgb_start)"
    and "md_goal d \<in> set (pixelsOfColour img rgb_goal)"
    and "md_walls d = pixelsOfColour img rgb_wall"
proof -
  from assms have ne: "pixelsOfColour img rgb_start \<noteq> []" "pixelsOfColour img rgb_goal \<noteq> []"
    by (auto simp: onload_char split: if_splits)
  with assms have d: "d = \<lparr>md_width = int (img_width img), md_height = int (img_height img),
                md_start = last (pixelsOfColour img rgb_start),
                md_goal = last (pixelsOfColour img rgb_goal),
                md_walls = pixelsOfColour img rgb_wall\<rparr>"
    by (simp add: onload_char)
  from ne show "md_start d \<in> set (pixelsOfColour img rgb_start)" by (simp add: d)
  from ne show "md_goal d \<in> set (pixelsOfColour img rgb_goal)" by (simp add: d)
  show "md_walls d = pixelsOfColour img rgb_wall" by (simp add: d)
qed

lemma rgb_distinct: "rgb_start \<noteq> rgb_wall" "rgb_goal \<noteq> rgb_wall" "rgb_start \<noteq> rgb_goal"
  by (simp_all add: rgb_wall_def rgb_start_def rgb_goal_def)

lemma onload_invariant:
  assumes "parseMazeFromImage_onload url img = Inr d"
  shows "md_start d \<notin> set (md_walls d)" and "md_goal d \<notin> set (md_walls d)"
    and "md_start d \<noteq> md_goal d"
proof -
  note l = onload_landmarks [OF assms]
  show "md_start d \<notin> set (md_walls d)"
    using pixelsOfColour_disjoint [OF rgb_distinct(1) l(1)] by (simp add: l(3))
  show "md_goal d \<notin> set (md_walls d)"
    using pixelsOfColour_disjoint [OF rgb_distinct(2) l(2)] by (simp add: l(3))
  show "md_start d \<noteq> md_goal d"
    using pixelsOfColour_disjoint [OF rgb_distinct(3) l(1)] l(2) by auto
qed

lemma parse_Inr:
  "parseMazeFromImage images url = Inr d \<Longrightarrow>
     \<exists>img. images url = Some img \<and> parseMazeFromImage_onload url img = Inr d"
  by (auto simp: parseMazeFromImage_def split: option.splits)

text \<open>
  C2. The decoder goes through the pixels in row-major order and classifies each by
  equality of its (R, G, B) tuple with wall (0,0,0), start (0,0,255) and goal (255,0,0);
  pixels of any other colour leave no trace. The descriptor's walls are all the wall
  pixels, its start is the last start pixel of the scan and its goal the last goal pixel;
  several start or goal pixels raise no error, the decoder only fails when there is no
  start pixel or no goal pixel.
\<close>

theorem decode_scan_last_landmark_wins:
  "parseMazeFromImage_onload url img =
     (if pixelsOfColour img rgb_start = [] \<or> pixelsOfColour img rgb_goal = []
      then Inl (LandmarkNotFound url)
      else Inr \<lparr>md_width = int (img_width img), md_height = int (img_height img),
                md_start = last (pixelsOfColour img rgb_start),
                md_goal = last (pixelsOfColour img rgb_goal),
                md_walls = pixelsOfColour img rgb_wall\<rparr>)"
  by (rule onload_char)

theorem decode_scan_last_landmark_wins_witness:
  "pixelsOfColour twin_image rgb_start = [(0, 0), (1, 1)]
   \<and> pixelsOfColour twin_image rgb_goal = [(2, 0), (0, 1)]
   \<and> parseMazeFromImage_onload ''maps/2.png'' twin_image
       = Inr \<lparr>md_width = 3, md_height = 2, md_start = (1, 1), md_goal = (0, 1),
               md_walls = [(1, 0)]\<rparr>"
  using decode_scan_last_landmark_wins [of "''maps/2.png''" twin_image]
  by code_simp

text \<open>
  C4. The descriptor of an image that decodes has its start and its goal outside its
  walls, and its start different from its goal; so neither is a wall of the maze built
  from the descriptor.
\<close>

theorem decoded_landmarks_not_walls:
  assumes "parseMazeFromImage images url = Inr d"
  shows "md_start d \<notin> set (md_walls d) \<and> md_goal d \<notin> set (md_walls d)
       \<and> md_start d \<noteq> md_goal d
       \<and> \<not> isWall (new_Maze d) (fst (md_start d)) (snd (md_start d))
       \<and> \<not> isWall (new_Maze d) (fst (md_goal d)) (snd (md_goal d))"
proof -
  from parse_Inr [OF assms] obtain img where "parseMazeFromImage_onload url img = Inr d"
    by blast
  note i = onload_invariant [OF this]
  then show ?thesis by (simp add: isWall_new_Maze)
qed

theorem decoded_landmarks_not_walls_witness:
  "parseMazeFromImage scenario_images ''maps/1.png'' = Inr scenario_data
   \<and> md_start scenario_data \<notin> set (md_walls scenario_data)
   \<and> md_goal scenario_data \<notin> set (md_walls scenario_data)
   \<and> md_start scenario_data \<noteq> md_goal scenario_data
   \<and> \<not> isWall scenario_maze 1 1 \<and> \<not> isWall scenario_maze 3 3"
proof -
  have a: "parseMazeFromImage scenario_images ''maps/1.png'' = Inr scenario_data"
    by code_simp
  have b: "new_Maze scenario_data = scenario_maze" "md_start scenario_data = (1, 1)"
    "md_goal scenario_data = (3, 3)"
    by (simp_all add: scenario_maze_def scenario_data_def)
  from decoded_landmarks_not_walls [OF a] a show ?thesis by (simp add: b)
qed

text \<open>
  C5, as the decoder has it. When no pixel has the start colour or no pixel has the goal
  colour, the decoder returns no descriptor: it rejects with the one error of the scan,
  whose message gives the image URL and says that the start or the goal was not found.
\<close>

theorem missing_landmark_rejected:
  assumes "images url = Some img"
    and "pixelsOfColour img rgb_start = [] \<or> pixelsOfColour img rgb_goal = []"
  shows "parseMazeFromImage images url = Inl (LandmarkNotFound url)"
  using assms by (auto simp: parseMazeFromImage_def onload_char)

theorem missing_landmark_rejected_witness:
  "(\<lambda>u. Some red_only_image) ''maps/3.png'' = Some red_only_image
   \<and> pixelsOfColour red_only_image rgb_start = []
   \<and> parseMazeFromImage (\<lambda>u. Some red_only_image) ''maps/3.png''
       = Inl (LandmarkNotFound ''maps/3.png'')"
proof -
  have a: "(\<lambda>u. Some red_only_image) ''maps/3.png'' = Some red_only_image" by simp
  have b: "pixelsOfColour red_only_image rgb_start = []" by code_simp
  from b have c: "pixelsOfColour red_only_image rgb_start = []
      \<or> pixelsOfColour red_only_image rgb_goal = []" by simp
  from missing_landmark_rejected [OF a c] a b show ?thesis by simp
qed

text \<open>
  Against C5 as first stated: the error does not tell which landmark is missing. An image
  that lacks only the start and an image that lacks only the goal are rejected with the
  same error.
\<close>

theorem landmark_error_same_for_start_and_goal:
  "pixelsOfColour red_only_image rgb_start = []
   \<and> pixelsOfColour red_only_image rgb_goal \<noteq> []
   \<and> pixelsOfColour blue_only_image rgb_start \<noteq> []
   \<and> pixelsOfColour blue_only_image rgb_goal = []
   \<and> parseMazeFromImage_onload ''maps/3.png'' red_only_image
       = parseMazeFromImage_onload ''maps/3.png'' blue_only_image"
  by code_simp

section \<open>The player stays off the walls\<close>

lemma move_keeps_off_walls:
  "\<not> isWall m (player_x p) (player_y p) \<Longrightarrow>
   \<not> isWall m (player_x (fst (move dx dy m p))) (player_y (fst (move dx dy m p)))"
  by (cases "isWall m (player_x p + dx) (player_y p + dy)")
    (simp_all add: move_rejected move_committed)

lemma runMoves_keeps_off_walls:
  "\<not> isWall m (player_x p) (player_y p) \<Longrightarrow>
   \<not> isWall m (player_x (runMoves m ms p)) (player_y (runMoves m ms p))"
proof (induction ms arbitrary: p)
  case Nil
  then show ?case by (simp add: runMoves_def)
next
  case (Cons a ms)
  obtain dx dy where a: "a = (dx, dy)" by (cases a)
  have "runMoves m (a # ms) p = runMoves m ms (fst (move dx dy m p))"
    by (simp add: runMoves_def a)
  with Cons.IH [OF move_keeps_off_walls [OF Cons.prems, of dx dy]] show ?case by simp
qed

lemma new_Player_position: "player_x (new_Player x y) = x" "player_y (new_Player x y) = y"
  by (simp_all add: new_Player_def markVisited_def)

text \<open>
  C10. In the maze built from a decoded descriptor, a player constructed at the maze's
  start cell is not on a wall, and after any sequence of move calls it is still not on a
  wall.
\<close>

theorem player_never_on_wall:
  assumes "parseMazeFromImage images url = Inr d"
  shows "\<not> isWall (new_Maze d)
           (player_x (runMoves (new_Maze d) ms
              (new_Player (fst (maze_start (new_Maze d))) (snd (maze_start (new_Maze d))))))
           (player_y (runMoves (new_Maze d) ms
              (new_Player (fst (maze_start (new_Maze d))) (snd (maze_start (new_Maze d))))))"
proof -
  from parse_Inr [OF assms] obtain img where "parseMazeFromImage_onload url img = Inr d"
    by blast
  from onload_invariant(1) [OF this]
  have "\<not> isWall (new_Maze d) (fst (md_start d)) (snd (md_start d))"
    by (simp add: isWall_new_Maze)
  moreover have "maze_start (new_Maze d) = md_start d" by (simp add: new_Maze_def)
  ultimately show ?thesis
    by (intro runMoves_keeps_off_walls) (simp add: new_Player_position)
qed

theorem player_never_on_wall_witness:
  "parseMazeFromImage scenario_images ''maps/1.png'' = Inr scenario_data
   \<and> runMoves scenario_maze [(1, 0), (- 1, 0), (- 1, 0), (0, 1), (0, 1), (0, 1)] (new_Player 1 1)
       = \<lparr>player_x = 1, player_y = 3, visitedCells = [''1,1'', ''2,1'', ''1,2'', ''1,3'']\<rparr>
   \<and> \<not> isWall scenario_maze 1 3"
proof -
  have a: "parseMazeFromImage scenario_images ''maps/1.png'' = Inr scenario_data"
    by code_simp
  have b: "new_Maze scenario_data = scenario_maze" by (simp add: scenario_maze_def)
  have c: "maze_start scenario_maze = (1, 1)" by code_simp
  have d: "runMoves scenario_maze [(1, 0), (- 1, 0), (- 1, 0), (0, 1), (0, 1), (0, 1)] (new_Player 1 1)
       = \<lparr>player_x = 1, player_y = 3, visitedCells = [''1,1'', ''2,1'', ''1,2'', ''1,3'']\<rparr>"
    by code_simp
  from player_never_on_wall [OF a, of "[(1, 0), (- 1, 0), (- 1, 0), (0, 1), (0, 1), (0, 1)]"] a d
  show ?thesis by (simp add: b c)
qed

section \<open>The visited path in the progress store\<close>

lemma new_Set_distinct: "distinct xs \<Longrightarrow> new_Set xs = xs"
proof -
  have "distinct (acc @ xs) \<Longrightarrow> fold Set_add xs acc = acc @ xs" for acc
  proof (induction xs arbitrary: acc)
    case Nil
    then show ?case by simp
  next
    case (Cons a xs)
    from Cons.prems have "Set_add a acc = acc @ [a]" by (simp add: Set_add_def)
    with Cons.IH [of "acc @ [a]"] Cons.prems show ?case by simp
  qed
  from this [of "[]"] show "distinct xs \<Longrightarrow> new_Set xs = xs" by (simp add: new_Set_def)
qed

lemma getCompletedPath_completeLevel:
  "getCompletedPath (fst (completeLevel level s st)) level = new_Set s"
  by (simp add: getCompletedPath_def completeLevel_def Let_def Array_from_def)

lemma getCompletedPath_reload:
  "getCompletedPath (new_GameState (snd (completeLevel level s st))) level = new_Set s"
  by (simp add: getCompletedPath_def completeLevel_def Let_def Array_from_def
      new_GameState_def loadProgress_def saveProgress_def)

text \<open>
  C6. Completing a level stores the visited set as the list of its \<open>"x,y"\<close> keys; reading
  the completed path of that level back, from the progress object or from a game state
  reloaded from storage, gives a set with the same members: a cell is in it exactly when
  the player had visited it. The members even come back in the same order.
\<close>

theorem visited_path_round_trip:
  "set (getCompletedPath (fst (completeLevel level (visitedCells p) st)) level) = set (visitedCells p)
   \<and> set (getCompletedPath (new_GameState (snd (completeLevel level (visitedCells p) st))) level)
       = set (visitedCells p)
   \<and> Set_has (getCompletedPath (new_GameState (snd (completeLevel level (visitedCells p) st))) level)
        (cellKey x y) = hasVisited p x y
   \<and> (distinct (visitedCells p) \<longrightarrow>
        getCompletedPath (fst (completeLevel level (visitedCells p) st)) level = visitedCells p
      \<and> getCompletedPath (new_GameState (snd (completeLevel level (visitedCells p) st))) level
          = visitedCells p)"
  by (simp add: getCompletedPath_completeLevel getCompletedPath_reload set_new_Set
      Set_has_def hasVisited_def new_Set_distinct)

theorem visited_path_round_trip_witness:
  "distinct scenario_visited
   \<and> progress (fst (completeLevel 1 scenario_visited (new_GameState None, None))) 1
       = Some \<lparr>completed = True, path = Some [''1,1'', ''2,1'', ''2,2'', ''3,3'']\<rparr>
   \<and> getCompletedPath (new_GameState (snd (completeLevel 1 scenario_visited (new_GameState None, None)))) 1
       = scenario_visited"
proof -
  have a: "distinct scenario_visited" by code_simp
  have b: "progress (fst (completeLevel 1 scenario_visited (new_GameState None, None))) 1
       = Some \<lparr>completed = True, path = Some [''1,1'', ''2,1'', ''2,2'', ''3,3'']\<rparr>"
    by code_simp
  from visited_path_round_trip [of 1 "\<lparr>player_x = 3, player_y = 3, visitedCells = scenario_visited\<rparr>" "(new_GameState None, None)" 3 3]
    a b show ?thesis by simp
qed

section \<open>The camera window\<close>

lemma viewport_follow:
  "\<not> (maze_width m \<le> MAX_VISIBLE_CELLS \<and> maze_height m \<le> MAX_VISIBLE_CELLS) \<Longrightarrow>
   renderMaze_viewport m p cs =
     \<lparr>vp_startX = min (maze_width m - 25) (max 0 (player_x p - 12)),
      vp_startY = min (maze_height m - 25) (max 0 (player_y p - 12)),
      vp_endX = min (maze_width m - 25) (max 0 (player_x p - 12)) + 25 - 1,
      vp_endY = min (maze_height m - 25) (max 0 (player_y p - 12)) + 25 - 1,
      vp_offsetX = - of_int (min (maze_width m - 25) (max 0 (player_x p - 12))) * cs,
      vp_offsetY = - of_int (min (maze_height m - 25) (max 0 (player_y p - 12))) * cs\<rparr>"
  by (auto simp: renderMaze_viewport_def MAX_VISIBLE_CELLS_def Let_def)

lemma viewport_fit:
  "maze_width m \<le> MAX_VISIBLE_CELLS \<and> maze_height m \<le> MAX_VISIBLE_CELLS \<Longrightarrow>
   renderMaze_viewport m p cs =
     \<lparr>vp_startX = 0, vp_startY = 0, vp_endX = maze_width m - 1, vp_endY = maze_height m - 1,
      vp_offsetX = (CONTAINER_SIZE - of_int (maze_width m) * cs) / 2,
      vp_offsetY = (CONTAINER_SIZE - of_int (maze_height m) * cs) / 2\<rparr>"
  by (simp add: renderMaze_viewport_def Let_def)

text \<open>
  C1, as the camera has it. When the maze is wider or higher than the 25 visible cells
  and the player stands inside the maze, the window of 25 by 25 cells contains the
  player's cell, and on each axis its origin is at most the axis size minus 25; on an axis
  of at least 25 cells the origin is not negative either.
\<close>

theorem camera_window_keeps_player:
  assumes "\<not> (maze_width m \<le> MAX_VISIBLE_CELLS \<and> maze_height m \<le> MAX_VISIBLE_CELLS)"
    and "0 \<le> player_x p" and "player_x p < maze_width m"
    and "0 \<le> player_y p" and "player_y p < maze_height m"
  shows "vp_startX (renderMaze_viewport m p cs) \<le> player_x p
       \<and> player_x p \<le> vp_endX (renderMaze_viewport m p cs)
       \<and> vp_startY (renderMaze_viewport m p cs) \<le> player_y p
       \<and> player_y p \<le> vp_endY (renderMaze_viewport m p cs)
       \<and> vp_endX (renderMaze_viewport m p cs) = vp_startX (renderMaze_viewport m p cs) + MAX_VISIBLE_CELLS - 1
       \<and> vp_endY (renderMaze_viewport m p cs) = vp_startY (renderMaze_viewport m p cs) + MAX_VISIBLE_CELLS - 1
       \<and> vp_startX (renderMaze_viewport m p cs) \<le> maze_width m - MAX_VISIBLE_CELLS
       \<and> vp_startY (renderMaze_viewport m p cs) \<le> maze_height m - MAX_VISIBLE_CELLS
       \<and> (MAX_VISIBLE_CELLS \<le> maze_width m \<longrightarrow> 0 \<le> vp_startX (renderMaze_viewport m p cs))
       \<and> (MAX_VISIBLE_CELLS \<le> maze_height m \<longrightarrow> 0 \<le> vp_startY (renderMaze_viewport m p cs))"
proof -
  note v = viewport_follow [OF assms(1), of p cs]
  have x: "min (maze_width m - 25) (max 0 (player_x p - 12)) \<le> player_x p"
    "player_x p \<le> min (maze_width m - 25) (max 0 (player_x p - 12)) + 25 - 1"
    using assms(2,3) by auto
  have y: "min (maze_height m - 25) (max 0 (player_y p - 12)) \<le> player_y p"
    "player_y p \<le> min (maze_height m - 25) (max 0 (player_y p - 12)) + 25 - 1"
    using assms(4,5) by auto
  show ?thesis
    unfolding v using x y by (simp add: MAX_VISIBLE_CELLS_def)
qed

theorem camera_window_keeps_player_witness:
  "\<not> (maze_width wide_maze \<le> MAX_VISIBLE_CELLS \<and> maze_height wide_maze \<le> MAX_VISIBLE_CELLS)
   \<and> MAX_VISIBLE_CELLS \<le> maze_width wide_maze \<and> MAX_VISIBLE_CELLS \<le> maze_height wide_maze
   \<and> renderMaze_viewport wide_maze \<lparr>player_x = 28, player_y = 14, visitedCells = []\<rparr> 20
       = \<lparr>vp_startX = 5, vp_startY = 2, vp_endX = 29, vp_endY = 26,
          vp_offsetX = - 100, vp_offsetY = - 40\<rparr>"
proof -
  have a: "\<not> (maze_width wide_maze \<le> MAX_VISIBLE_CELLS \<and> maze_height wide_maze \<le> MAX_VISIBLE_CELLS)"
    by code_simp
  have b: "0 \<le> player_x \<lparr>player_x = 28, player_y = 14, visitedCells = []\<rparr>"
    "player_x \<lparr>player_x = 28, player_y = 14, visitedCells = []\<rparr> < maze_width wide_maze"
    "0 \<le> player_y \<lparr>player_x = 28, player_y = 14, visitedCells = []\<rparr>"
    "player_y \<lparr>player_x = 28, player_y = 14, visitedCells = []\<rparr> < maze_height wide_maze"
    by (simp_all add: wide_maze_def)
  have c: "MAX_VISIBLE_CELLS \<le> maze_width wide_maze \<and> MAX_VISIBLE_CELLS \<le> maze_height wide_maze"
    by code_simp
  have d: "renderMaze_viewport wide_maze \<lparr>player_x = 28, player_y = 14, visitedCells = []\<rparr> 20
       = \<lparr>vp_startX = 5, vp_startY = 2, vp_endX = 29, vp_endY = 26,
          vp_offsetX = - 100, vp_offsetY = - 40\<rparr>"
    by code_simp
  from camera_window_keeps_player [OF a b, of 20] a c d show ?thesis by simp
qed

text \<open>
  Against C1 as first stated: in a maze of 1 by 27 cells, which is higher than 25 cells,
  the window of a player at the start begins at column -24.
\<close>

theorem camera_window_negative_origin:
  "parseMazeFromImage_onload ''maps/4.png'' tower_image = Inr tower_data
   \<and> \<not> (maze_width tower_maze \<le> 25 \<and> maze_height tower_maze \<le> 25)
   \<and> 0 \<le> player_x (new_Player 0 0) \<and> player_x (new_Player 0 0) < maze_width tower_maze
   \<and> 0 \<le> player_y (new_Player 0 0) \<and> player_y (new_Player 0 0) < maze_height tower_maze
   \<and> vp_startX (renderMaze_viewport tower_maze (new_Player 0 0) 20) = - 24
   \<and> vp_startX (renderMaze_viewport tower_maze (new_Player 0 0) 20) < 0"
  by code_simp

section \<open>Which cells the main view draws\<close>

lemma renderMaze_cell_coords:
  "c \<in> set (renderMaze_cell m p cs vp y x) \<Longrightarrow> dc_x c = x \<and> dc_y c = y"
  by (auto simp: renderMaze_cell_def Let_def split: if_splits)

lemma renderMaze_cell_nonempty:
  "renderMaze_cell m p cs vp y x \<noteq> [] \<longleftrightarrow>
     0 \<le> x \<and> x < maze_width m \<and> 0 \<le> y \<and> y < maze_height m
     \<and> ((\<bar>x - player_x p\<bar> \<le> 1 \<and> \<bar>y - player_y p\<bar> \<le> 1) \<or> hasVisited p x y)"
  by (auto simp: renderMaze_cell_def Let_def viewRange_def)

lemma isDrawn_iff:
  "isDrawn m p cs x y \<longleftrightarrow>
     vp_startX (renderMaze_viewport m p cs) \<le> x \<and> x \<le> vp_endX (renderMaze_viewport m p cs)
     \<and> vp_startY (renderMaze_viewport m p cs) \<le> y \<and> y \<le> vp_endY (renderMaze_viewport m p cs)
     \<and> 0 \<le> x \<and> x < maze_width m \<and> 0 \<le> y \<and> y < maze_height m
     \<and> ((\<bar>x - player_x p\<bar> \<le> 1 \<and> \<bar>y - player_y p\<bar> \<le> 1) \<or> hasVisited p x y)"
proof -
  define vp where "vp = renderMaze_viewport m p cs"
  have "isDrawn m p cs x y \<longleftrightarrow>
      (\<exists>y' \<in> {vp_startY vp..vp_endY vp}. \<exists>x' \<in> {vp_startX vp..vp_endX vp}.
         \<exists>c \<in> set (renderMaze_cell m p cs vp y' x'). dc_x c = x \<and> dc_y c = y)"
    by (auto simp: isDrawn_def renderMaze_def Let_def vp_def image_iff)
  also have "\<dots> \<longleftrightarrow> (x \<in> {vp_startX vp..vp_endX vp} \<and> y \<in> {vp_startY vp..vp_endY vp}
      \<and> renderMaze_cell m p cs vp y x \<noteq> [])"
  proof
    assume "\<exists>y' \<in> {vp_startY vp..vp_endY vp}. \<exists>x' \<in> {vp_startX vp..vp_endX vp}.
         \<exists>c \<in> set (renderMaze_cell m p cs vp y' x'). dc_x c = x \<and> dc_y c = y"
    then obtain y' x' c where r: "y' \<in> {vp_startY vp..vp_endY vp}" "x' \<in> {vp_startX vp..vp_endX vp}"
      "c \<in> set (renderMaze_cell m p cs vp y' x')" "dc_x c = x" "dc_y c = y"
      by blast
    from renderMaze_cell_coords [OF r(3)] r(4,5) have "x' = x" "y' = y" by simp_all
    with r show "x \<in> {vp_startX vp..vp_endX vp} \<and> y \<in> {vp_startY vp..vp_endY vp}
      \<and> renderMaze_cell m p cs vp y x \<noteq> []" by auto
  next
    assume a: "x \<in> {vp_startX vp..vp_endX vp} \<and> y \<in> {vp_startY vp..vp_endY vp}
      \<and> renderMaze_cell m p cs vp y x \<noteq> []"
    then obtain c where c: "c \<in> set (renderMaze_cell m p cs vp y x)"
      by (cases "renderMaze_cell m p cs vp y x") auto
    from renderMaze_cell_coords [OF c] c a
    show "\<exists>y' \<in> {vp_startY vp..vp_endY vp}. \<exists>x' \<in> {vp_startX vp..vp_endX vp}.
         \<exists>c \<in> set (renderMaze_cell m p cs vp y' x'). dc_x c = x \<and> dc_y c = y"
      by blast
  qed
  finally show ?thesis
    by (auto simp: renderMaze_cell_nonempty vp_def)
qed

text \<open>
  C8, as the main view has it. A cell is drawn exactly when it lies inside the maze and
  inside the window of the frame and is within the 3 by 3 neighbourhood of the player or
  in the visited set; nothing else is asked. When the maze fits the 25 visible cells, the
  window is the whole maze, and a cell of the maze is drawn exactly when it is in the
  neighbourhood or visited.
\<close>

theorem main_view_draws_spotlight_or_visited:
  "(isDrawn m p cs x y \<longleftrightarrow>
      vp_startX (renderMaze_viewport m p cs) \<le> x \<and> x \<le> vp_endX (renderMaze_viewport m p cs)
      \<and> vp_startY (renderMaze_viewport m p cs) \<le> y \<and> y \<le> vp_endY (renderMaze_viewport m p cs)
      \<and> 0 \<le> x \<and> x < maze_width m \<and> 0 \<le> y \<and> y < maze_height m
      \<and> ((\<bar>x - player_x p\<bar> \<le> 1 \<and> \<bar>y - player_y p\<bar> \<le> 1) \<or> hasVisited p x y))
   \<and> (maze_width m \<le> MAX_VISIBLE_CELLS \<and> maze_height m \<le> MAX_VISIBLE_CELLS
        \<and> 0 \<le> x \<and> x < maze_width m \<and> 0 \<le> y \<and> y < maze_height m \<longrightarrow>
      (isDrawn m p cs x y \<longleftrightarrow>
         (\<bar>x - player_x p\<bar> \<le> 1 \<and> \<bar>y - player_y p\<bar> \<le> 1) \<or> hasVisited p x y))"
proof (intro conjI impI)
  show "isDrawn m p cs x y \<longleftrightarrow>
      vp_startX (renderMaze_viewport m p cs) \<le> x \<and> x \<le> vp_endX (renderMaze_viewport m p cs)
      \<and> vp_startY (renderMaze_viewport m p cs) \<le> y \<and> y \<le> vp_endY (renderMaze_viewport m p cs)
      \<and> 0 \<le> x \<and> x < maze_width m \<and> 0 \<le> y \<and> y < maze_height m
      \<and> ((\<bar>x - player_x p\<bar> \<le> 1 \<and> \<bar>y - player_y p\<bar> \<le> 1) \<or> hasVisited p x y)"
    by (rule isDrawn_iff)
next
  assume a: "maze_width m \<le> MAX_VISIBLE_CELLS \<and> maze_height m \<le> MAX_VISIBLE_CELLS
        \<and> 0 \<le> x \<and> x < maze_width m \<and> 0 \<le> y \<and> y < maze_height m"
  then have "maze_width m \<le> MAX_VISIBLE_CELLS \<and> maze_height m \<le> MAX_VISIBLE_CELLS" by simp
  note v = viewport_fit [OF this, of p cs]
  from a show "isDrawn m p cs x y \<longleftrightarrow>
         (\<bar>x - player_x p\<bar> \<le> 1 \<and> \<bar>y - player_y p\<bar> \<le> 1) \<or> hasVisited p x y"
    unfolding isDrawn_iff v by simp
qed

theorem main_view_draws_spotlight_or_visited_witness:
  "maze_width scenario_maze \<le> MAX_VISIBLE_CELLS \<and> maze_height scenario_maze \<le> MAX_VISIBLE_CELLS
   \<and> isDrawn scenario_maze (fst (move 1 0 scenario_maze (new_Player 1 1))) 100 3 2
   \<and> isDrawn scenario_maze (fst (move 1 0 scenario_maze (new_Player 1 1))) 100 1 1
   \<and> \<not> isDrawn scenario_maze (fst (move 1 0 scenario_maze (new_Player 1 1))) 100 3 3
   \<and> hasVisited (fst (move 1 0 scenario_maze (new_Player 1 1))) 1 1
   \<and> \<not> hasVisited (fst (move 1 0 scenario_maze (new_Player 1 1))) 3 3"
proof -
  define q where "q = fst (move 1 0 scenario_maze (new_Player 1 1))"
  have q: "q = \<lparr>player_x = 2, player_y = 1, visitedCells = [''1,1'', ''2,1'']\<rparr>"
    unfolding q_def by code_simp
  have a: "maze_width scenario_maze \<le> MAX_VISIBLE_CELLS \<and> maze_height scenario_maze \<le> MAX_VISIBLE_CELLS"
    by code_simp
  have d: "maze_width scenario_maze = 5" "maze_height scenario_maze = 5" by code_simp+
  have h: "hasVisited q 1 1" "\<not> hasVisited q 3 3" "\<not> hasVisited q 3 2"
    unfolding q by code_simp+
  have p: "player_x q = 2" "player_y q = 1" by (simp_all add: q)
  note t = main_view_draws_spotlight_or_visited [where m = scenario_maze and p = q and cs = 100,
      THEN conjunct2, rule_format]
  have "isDrawn scenario_maze q 100 3 2"
    using t [of 3 2] a h by (simp add: d p)
  moreover have "isDrawn scenario_maze q 100 1 1"
    using t [of 1 1] a h by (simp add: d p)
  moreover have "\<not> isDrawn scenario_maze q 100 3 3"
    using t [of 3 3] a h by (simp add: d p)
  ultimately have "isDrawn scenario_maze q 100 3 2 \<and> isDrawn scenario_maze q 100 1 1
      \<and> \<not> isDrawn scenario_maze q 100 3 3" by simp
  with a h show ?thesis by (simp add: q_def)
qed

text \<open>
  Against C8 as first stated: in the maze of 1 by 27 cells, after 14 steps down from the
  start the window begins at row 2; the start cell is in the visited set and is not
  drawn.
\<close>

theorem visited_cell_outside_window_not_drawn:
  "hasVisited (runMoves tower_maze (replicate 14 (0, 1)) (new_Player 0 0)) 0 0
   \<and> \<not> isDrawn tower_maze (runMoves tower_maze (replicate 14 (0, 1)) (new_Player 0 0)) 20 0 0"
  by code_simp

section \<open>A level that fails to load\<close>

lemma startLevel_failed:
  assumes "level \<le> maxLevel (gameState g)"
    and "parsedMazes g level = None"
    and "parseMazeFromImage images (getMazeConfig level) = Inl e"
  shows "startLevel images level g =
     showLevelSelect (g\<lparr>gameState := (gameState g)\<lparr>currentLevel := level\<rparr>,
                        alerts := alerts g @ [AlertLoadFailed level e]\<rparr>)"
  using assms by (simp add: startLevel_def Let_def)

lemma startLevel_cached:
  assumes "level \<le> maxLevel (gameState g)" and "parsedMazes g level = Some d"
  shows "game_maze (startLevel images level g) = Some (new_Maze d)"
    and "game_player (startLevel images level g)
        = Some (new_Player (fst (md_start d)) (snd (md_start d)))"
    and "currentScreen (gameState (startLevel images level g)) = Game"
    and "currentLevel (gameState (startLevel images level g)) = level"
    and "parsedMazes (startLevel images level g) = parsedMazes g"
  using assms by (simp_all add: startLevel_def Let_def showScreen_def new_Maze_def)

lemma startLevel_decoded:
  assumes "level \<le> maxLevel (gameState g)" and "parsedMazes g level = None"
    and "parseMazeFromImage images (getMazeConfig level) = Inr d"
  shows "game_maze (startLevel images level g) = Some (new_Maze d)"
    and "game_player (startLevel images level g)
        = Some (new_Player (fst (md_start d)) (snd (md_start d)))"
    and "currentScreen (gameState (startLevel images level g)) = Game"
    and "parsedMazes (startLevel images level g) = (parsedMazes g)(level \<mapsto> d)"
  using assms by (simp_all add: startLevel_def Let_def showScreen_def new_Maze_def)

text \<open>
  C7, as \<open>startLevel\<close> has it. When the level is not in the cache and loading its image
  fails, with a load error or a decode error, the call still returns: the maze, the
  player, the cell size and the cache are what they were, the error is reported by an
  alert, and the level selection is shown (levels are numbered from 1). The current level
  of the game state, assigned before the loading starts, is the level asked for.
\<close>

theorem failed_level_load_keeps_maze_and_player:
  assumes "1 \<le> level" and "level \<le> maxLevel (gameState g)"
    and "parsedMazes g level = None"
    and "parseMazeFromImage images (getMazeConfig level) = Inl e"
  shows "game_maze (startLevel images level g) = game_maze g
       \<and> game_player (startLevel images level g) = game_player g
       \<and> cellSize (startLevel images level g) = cellSize g
       \<and> parsedMazes (startLevel images level g) = parsedMazes g
       \<and> progress (gameState (startLevel images level g)) = progress (gameState g)
       \<and> maxLevel (gameState (startLevel images level g)) = maxLevel (gameState g)
       \<and> alerts (startLevel images level g) = alerts g @ [AlertLoadFailed level e]
       \<and> currentScreen (gameState (startLevel images level g)) = LevelSelect
       \<and> currentLevel (gameState (startLevel images level g)) = level"
proof -
  from assms(1,2) have "maxLevel (gameState g) \<noteq> 0" by simp
  then show ?thesis
    unfolding startLevel_failed [OF assms(2,3,4)]
    by (simp add: showLevelSelect_def showScreen_def)
qed

theorem failed_level_load_keeps_maze_and_player_witness:
  "(1 :: int) \<le> 2 \<and> 2 \<le> maxLevel (gameState cleared_game)
   \<and> parsedMazes cleared_game 2 = None
   \<and> parseMazeFromImage broken_images (getMazeConfig 2) = Inl (LandmarkNotFound ''maps/2.png'')
   \<and> startLevel broken_images 2 cleared_game
       = cleared_game\<lparr>gameState := (gameState cleared_game)\<lparr>currentLevel := 2,
                                                                currentScreen := LevelSelect\<rparr>,
                        alerts := [AlertLoadFailed 2 (LandmarkNotFound ''maps/2.png'')]\<rparr>"
proof -
  have a: "(1 :: int) \<le> 2" by simp
  have b: "2 \<le> maxLevel (gameState cleared_game)" by (simp add: cleared_game_def)
  have c: "parsedMazes cleared_game 2 = None" by (simp add: cleared_game_def)
  have d: "parseMazeFromImage broken_images (getMazeConfig 2) = Inl (LandmarkNotFound ''maps/2.png'')"
    by code_simp
  have e: "startLevel broken_images 2 cleared_game
       = cleared_game\<lparr>gameState := (gameState cleared_game)\<lparr>currentLevel := 2,
                                                                currentScreen := LevelSelect\<rparr>,
                        alerts := [AlertLoadFailed 2 (LandmarkNotFound ''maps/2.png'')]\<rparr>"
    using failed_level_load_keeps_maze_and_player [OF a b c d]
    by (simp add: cleared_game_def)
  from a b c d e show ?thesis by simp
qed

text \<open>
  Against C7 as first stated: a failed load does change the game state. In the game
  above, asking for the next level, whose image has no start pixel, leaves the current
  level at 2 while the maze and the player are still those of level 1.
\<close>

theorem failed_level_load_changes_current_level:
  "parseMazeFromImage broken_images (getMazeConfig 2) = Inl (LandmarkNotFound ''maps/2.png'')
   \<and> currentLevel (gameState cleared_game) = 1
   \<and> currentLevel (gameState (startLevel broken_images 2 cleared_game)) = 2
   \<and> game_maze (startLevel broken_images 2 cleared_game) = Some scenario_maze
   \<and> startLevel broken_images 2 cleared_game \<noteq> cleared_game"
proof -
  have d: "parseMazeFromImage broken_images (getMazeConfig 2) = Inl (LandmarkNotFound ''maps/2.png'')"
    by code_simp
  have s: "startLevel broken_images 2 cleared_game =
     showLevelSelect (cleared_game\<lparr>gameState := (gameState cleared_game)\<lparr>currentLevel := 2\<rparr>,
                        alerts := alerts cleared_game @ [AlertLoadFailed 2 (LandmarkNotFound ''maps/2.png'')]\<rparr>)"
    by (rule startLevel_failed) (simp_all add: cleared_game_def d)
  have l: "currentLevel (gameState (startLevel broken_images 2 cleared_game)) = 2"
    unfolding s by (simp add: showLevelSelect_def showScreen_def cleared_game_def)
  have m: "game_maze (startLevel broken_images 2 cleared_game) = Some scenario_maze"
    unfolding s by (simp add: showLevelSelect_def showScreen_def cleared_game_def)
  have c: "currentLevel (gameState cleared_game) = 1" by (simp add: cleared_game_def)
  from l c have "startLevel broken_images 2 cleared_game \<noteq> cleared_game" by auto
  with d c l m show ?thesis by simp
qed

end
